theory Spec2Isabelle
  imports Main "HOL-Library.Sublist"
begin

section \<open>The self-update command of docker-compose (cmd/compose/selfupdate.go)\<close>

text \<open>
  A shallow embedding of \<^verbatim>\<open>selfupdate.go\<close>. A Go \<^verbatim>\<open>byte\<close> is an Isabelle
  \<^typ>\<open>char\<close> (both have eight bits), so \<^verbatim>\<open>[]byte\<close> and \<^verbatim>\<open>string\<close> are both
  \<^typ>\<open>string\<close> and the conversion \<^verbatim>\<open>string(b)\<close> is the identity. A path is a string.
\<close>

type_synonym path = string

subsection \<open>Data model\<close>

record AssetsResponse =
  Id :: int
  Url :: string
  Name :: string

record VersionResponse =
  Id :: int
  Url :: string
  Name :: string
  TagName :: string

record selfUpdateOptions =
  unstable :: bool
  quiet :: bool

text \<open>
  Go's \<^verbatim>\<open>error\<close> values. The first two are the errors the file builds itself with
  \<^verbatim>\<open>fmt.Errorf\<close>; the others come from the operating system and the libraries.
\<close>

datatype error =
    NoMatchingArchitecture string string
  | NoMatchingAsset
  | NotExist path
  | Exist path
  | NotDirectory path
  | IsDirectory path
  | External string

subsection \<open>matchArchitecture\<close>

text \<open>
  \<^verbatim>\<open>runtime.GOOS\<close> and \<^verbatim>\<open>runtime.GOARCH\<close> are constants of the build; they are the
  two arguments here. The branches are those of the source, in its order, the second
  test of \<^verbatim>\<open>GOARCH == ""\<close> included.
\<close>

definition matchArchitecture :: "string \<Rightarrow> string \<Rightarrow> error + string" where
  "matchArchitecture goos goarch =
     (if goos = ''darwin'' then
        (if goarch = ''arm64'' then Inr ''darwin-aarch64''
         else if goarch = ''x86_64'' then Inr ''darwin-x86_64''
         else Inl (NoMatchingArchitecture goos goarch))
      else if goos = ''linux'' then
        (if goarch = ''s390x'' then Inr ''linux-s390x''
         else if goarch = ''arm64'' then Inr ''linux-aarch64''
         else if goarch = '''' then Inr ''linux-armv6''
         else if goarch = '''' then Inr ''linux-armv7''
         else if goarch = ''amd64'' then Inr ''linux-x86_64''
         else Inl (NoMatchingArchitecture goos goarch))
      else if goos = ''windows'' \<and> goarch = ''x86_64'' then Inr ''windows-x86_64''
      else Inl (NoMatchingArchitecture goos goarch))"

subsection \<open>searchAssets\<close>

text \<open>
  The \<^verbatim>\<open>for i := range assets\<close> loop, from index \<open>i\<close> on. The result is Go's pair
  of an index and an error, \<open>None\<close> for \<^verbatim>\<open>nil\<close>.
\<close>

function searchAssets_loop :: "AssetsResponse list \<Rightarrow> string \<Rightarrow> nat \<Rightarrow> nat \<times> error option" where
  "searchAssets_loop assets needle i =
     (if i < length assets then
        (if AssetsResponse.Name (assets ! i) = needle then (i, None)
         else searchAssets_loop assets needle (Suc i))
      else (0, Some NoMatchingAsset))"
  by pat_completeness auto
termination
  by (relation "measure (\<lambda>(assets, needle, i). length assets - i)") auto

definition searchAssets :: "AssetsResponse list \<Rightarrow> string \<Rightarrow> nat \<times> error option" where
  "searchAssets assets needle = searchAssets_loop assets needle 0"

subsection \<open>The world outside the program\<close>

text \<open>
  The file system is an association list from paths to nodes; a directory's content
  are the entries whose path extends the directory's path by \<open>/\<close> and more. The events
  are what the program does that can be seen from outside, oldest first: lines printed,
  HTTP GET requests issued, and calls of \<^verbatim>\<open>os.Rename\<close>.
\<close>

datatype node = File string | Dir

type_synonym filesystem = "(path \<times> node) list"

datatype event = Printed string | Requested string | Renamed path path

record world =
  files :: filesystem
  events :: "event list"

text \<open>
  What a GET request meets: no response at all, a body read to its end, or a body that
  breaks off with an error after a first part.
\<close>

datatype response = Unreachable error | Body string | Broken string error

text \<open>The array type \<^verbatim>\<open>[32]byte\<close> of a SHA-256 sum.\<close>

typedef sum256 = "{xs :: string. length xs = 32}"
  by (rule exI [of _ "replicate 32 (CHR 0x00)"]) simp

text \<open>
  The environment of a run: the constants of the build, the answers of the operating
  system and of the network, and the library functions the file calls and does not
  define (encoding/json, Masterminds/semver with its version type \<open>'v\<close>, crypto/sha256).
  \<open>nextRandom\<close> is the random part of the name \<^verbatim>\<open>ioutil.TempFile\<close> settles on for a
  directory and a pattern; \<open>renameRefused\<close> is the error with which the operating system
  refuses a rename whose source exists (permissions, a busy or non-empty target).
\<close>

record 'v env =
  GOOS :: string
  GOARCH :: string
  Getwd :: "error + path"
  TempDir :: path
  nextRandom :: "path \<Rightarrow> string \<Rightarrow> string"
  renameRefused :: "path \<Rightarrow> path \<Rightarrow> error option"
  httpGet :: "string \<Rightarrow> response"
  Unmarshal :: "string \<Rightarrow> error + VersionResponse list"
  NewVersion :: "string \<Rightarrow> error + 'v"
  LessThan :: "'v \<Rightarrow> 'v \<Rightarrow> bool"
  VersionString :: "'v \<Rightarrow> string"
  Sum256 :: "string \<Rightarrow> sum256"

subsection \<open>Control: log.Fatal and panics\<close>

text \<open>
  A run ends by returning, by \<^verbatim>\<open>log.Fatal\<close> (the operands it prints, then exit status
  1) or by the run-time panic of an index out of range (the index and the length).
\<close>

datatype abort = LogFatal string error | IndexOutOfRange nat nat

type_synonym 'a prog = "world \<Rightarrow> (abort + 'a) \<times> world"

definition ret :: "'a \<Rightarrow> 'a prog" where
  "ret x s = (Inr x, s)"

definition seq :: "'a prog \<Rightarrow> ('a \<Rightarrow> 'b prog) \<Rightarrow> 'b prog" where
  "seq m f s = (case m s of (Inl a, s') \<Rightarrow> (Inl a, s') | (Inr x, s') \<Rightarrow> f x s')"

definition Println :: "string \<Rightarrow> unit prog" where
  "Println line s = (Inr (), s\<lparr>events := events s @ [Printed line]\<rparr>)"

text \<open>\<^verbatim>\<open>if err != nil { log.Fatal(msg, err) }\<close> on a result of Go's form (x, err).\<close>

definition check :: "string \<Rightarrow> error + 'a \<Rightarrow> 'a prog" where
  "check msg r s = (case r of Inl err \<Rightarrow> (Inl (LogFatal msg err), s) | Inr x \<Rightarrow> (Inr x, s))"

text \<open>An operation on the world that returns (x, err), followed by that check.\<close>

definition attempt :: "string \<Rightarrow> (world \<Rightarrow> (error + 'a) \<times> world) \<Rightarrow> 'a prog" where
  "attempt msg op s = (case op s of (r, s') \<Rightarrow> check msg r s')"

text \<open>The index expression \<^verbatim>\<open>xs[i]\<close>.\<close>

definition index :: "'a list \<Rightarrow> nat \<Rightarrow> 'a prog" where
  "index xs i s = (if i < length xs then (Inr (xs ! i), s) else (Inl (IndexOutOfRange i (length xs)), s))"

subsection \<open>Operating system and libraries\<close>

definition below :: "path \<Rightarrow> path \<Rightarrow> bool" where
  "below d p = (p = d \<or> prefix (d @ ''/'') p)"

definition rebase :: "path \<Rightarrow> path \<Rightarrow> path \<Rightarrow> path" where
  "rebase old new p = (if below old p then new @ drop (length old) p else p)"

text \<open>
  A rename that succeeds: what was at the new path goes, and the node at the old path
  moves there with all that is below it.
\<close>

definition move :: "path \<Rightarrow> path \<Rightarrow> filesystem \<Rightarrow> filesystem" where
  "move old new fs = map (\<lambda>(p, n). (rebase old new p, n)) (filter (\<lambda>(p, n). \<not> below new p) fs)"

text \<open>
  \<^verbatim>\<open>os.Rename\<close>. It fails when there is nothing at the old path; when the new path is
  a directory (Go answers that the file exists before it asks the system); when a
  directory would take the place of a file; or when the system refuses. A file renamed to
  its own path stays as it is.
\<close>

definition os_Rename :: "'v env \<Rightarrow> path \<Rightarrow> path \<Rightarrow> world \<Rightarrow> (error + unit) \<times> world" where
  "os_Rename env old new s =
     (let s' = s\<lparr>events := events s @ [Renamed old new]\<rparr> in
      case map_of (files s) old of
        None \<Rightarrow> (Inl (NotExist old), s')
      | Some n \<Rightarrow>
          (if map_of (files s) new = Some Dir then (Inl (Exist new), s')
           else if n = Dir \<and> map_of (files s) new \<noteq> None then (Inl (NotDirectory new), s')
           else if old = new then (Inr (), s')
           else case renameRefused env old new of
                  Some err \<Rightarrow> (Inl err, s')
                | None \<Rightarrow> (Inr (), s'\<lparr>files := move old new (files s)\<rparr>)))"

text \<open>
  \<^verbatim>\<open>ioutil.TempFile\<close> (\<^verbatim>\<open>os.CreateTemp\<close>): the random part replaces the last \<open>*\<close> of the
  pattern, or follows the pattern when it has none; the new, empty file is created in
  the directory, which has to exist, under a name that is not taken. The result stands
  for the open file; its \<^verbatim>\<open>Name()\<close> is the path.
\<close>

definition prefixAndSuffix :: "string \<Rightarrow> string \<times> string" where
  "prefixAndSuffix pattern =
     (if CHR ''*'' \<in> set pattern
      then (rev (tl (dropWhile (\<lambda>c. c \<noteq> CHR ''*'') (rev pattern))),
            rev (takeWhile (\<lambda>c. c \<noteq> CHR ''*'') (rev pattern)))
      else (pattern, []))"

definition joinPath :: "path \<Rightarrow> string \<Rightarrow> path" where
  "joinPath dir name = (if dir \<noteq> [] \<and> last dir = CHR ''/'' then dir @ name else dir @ ''/'' @ name)"

text \<open>
  The paths of the file system are written without a separator at their end; a directory
  may be named with some (\<^verbatim>\<open>TMPDIR=/tmp/\<close>).
\<close>

definition trimSeparators :: "path \<Rightarrow> path" where
  "trimSeparators dir =
     (let d = rev (dropWhile (\<lambda>c. c = CHR ''/'') (rev dir)) in if d = [] then ''/'' else d)"

definition TempFile :: "'v env \<Rightarrow> path \<Rightarrow> string \<Rightarrow> world \<Rightarrow> (error + path) \<times> world" where
  "TempFile env dir0 pattern s =
     (let dir = (if dir0 = [] then TempDir env else dir0);
          (pre, suf) = prefixAndSuffix pattern;
          name = joinPath dir (pre @ nextRandom env dir pattern @ suf)
      in case map_of (files s) (trimSeparators dir) of
           None \<Rightarrow> (Inl (NotExist name), s)
         | Some (File b) \<Rightarrow> (Inl (NotDirectory name), s)
         | Some Dir \<Rightarrow>
             (if map_of (files s) name \<noteq> None then (Inl (Exist name), s)
              else (Inr name, s\<lparr>files := files s @ [(name, File [])]\<rparr>)))"

definition ReadFile :: "path \<Rightarrow> world \<Rightarrow> (error + string) \<times> world" where
  "ReadFile name s =
     (case map_of (files s) name of
        None \<Rightarrow> (Inl (NotExist name), s)
      | Some Dir \<Rightarrow> (Inl (IsDirectory name), s)
      | Some (File b) \<Rightarrow> (Inr b, s))"

text \<open>Writing through the open file: the content of the file at that path.\<close>

definition writeFile :: "path \<Rightarrow> string \<Rightarrow> filesystem \<Rightarrow> filesystem" where
  "writeFile name b fs = map (\<lambda>(p, n). if p = name then (p, File b) else (p, n)) fs"

text \<open>\<^verbatim>\<open>hex.EncodeToString\<close>: two digits of the table for each byte, the high half first.\<close>

definition hextable :: string where
  "hextable = ''0123456789abcdef''"

definition EncodeToString :: "string \<Rightarrow> string" where
  "EncodeToString src =
     concat (map (\<lambda>c. [hextable ! (of_char c div 16), hextable ! (of_char c mod 16)]) src)"

text \<open>
  The slice expression \<^verbatim>\<open>b[:64]\<close> on the result of \<^verbatim>\<open>os.ReadFile\<close>. The bound of a
  slice expression on a slice is its capacity, not its length, and \<^verbatim>\<open>os.ReadFile\<close>
  allocates at least 512 bytes, all zero, before it reads: on a file of fewer than 64
  bytes the expression does not panic, it yields the content followed by zero bytes.
\<close>

definition sliceTo64 :: "string \<Rightarrow> string" where
  "sliceTo64 b = take 64 (b @ replicate (64 - length b) (CHR 0x00))"

subsection \<open>requestJson and downloadFile\<close>

definition requestJson :: "'v env \<Rightarrow> string \<Rightarrow> world \<Rightarrow> (error + string) \<times> world" where
  "requestJson env url s =
     (let s' = s\<lparr>events := events s @ [Requested url]\<rparr> in
      case httpGet env url of
        Unreachable err \<Rightarrow> (Inl err, s')
      | Broken b err \<Rightarrow> (Inl err, s')
      | Body b \<Rightarrow> (Inr b, s'))"

definition downloadFile :: "'v env \<Rightarrow> string \<Rightarrow> path \<Rightarrow> world \<Rightarrow> (error + unit) \<times> world" where
  "downloadFile env url file s =
     (let s' = s\<lparr>events := events s @ [Requested url]\<rparr> in
      case httpGet env url of
        Unreachable err \<Rightarrow> (Inl err, s')
      | Broken b err \<Rightarrow> (Inl err, s'\<lparr>files := writeFile file b (files s)\<rparr>)
      | Body b \<Rightarrow> (Inr (), s'\<lparr>files := writeFile file b (files s)\<rparr>))"

subsection \<open>runSelfUpdate\<close>

definition releasesUrl :: string where
  "releasesUrl = ''https://api.github.com/repos/docker/compose/releases''"

definition version :: string where
  "version = ''2.2.2''"

text \<open>The condition of the \<^verbatim>\<open>if\<close> that compares the two sums (line 153).\<close>

definition sumsDiffer :: "sum256 \<Rightarrow> string \<Rightarrow> bool" where
  "sumsDiffer computedSum downloadedSum =
     (EncodeToString (Rep_sum256 computedSum) \<noteq> sliceTo64 downloadedSum)"

text \<open>The last part of \<^verbatim>\<open>runSelfUpdate\<close>, its two renames (lines 159 to 170).\<close>

definition replaceBinary :: "'v env \<Rightarrow> path \<Rightarrow> path \<Rightarrow> unit prog" where
  "replaceBinary env currentBinaryPath binaryFileName =
     seq (attempt [] (os_Rename env currentBinaryPath (currentBinaryPath @ ''_old''))) (\<lambda>_.
     seq (Println (''Move downdloaded file from '' @ binaryFileName @ '' to ''
                   @ currentBinaryPath @ ''_tmp'')) (\<lambda>_.
     attempt [] (os_Rename env binaryFileName (currentBinaryPath @ ''_tmp''))))"

text \<open>
  The middle part of \<^verbatim>\<open>runSelfUpdate\<close>, from the asset suffix to the comparison of
  the sums (lines 109 to 157), then \<open>replaceBinary\<close>.
\<close>

definition downloadUpdate :: "'v env \<Rightarrow> 'v \<Rightarrow> unit prog" where
  "downloadUpdate env nextVersion =
     seq (check [] (matchArchitecture (GOOS env) (GOARCH env))) (\<lambda>assetSuffix.
     seq (check [] (Getwd env)) (\<lambda>currentBinaryPath.
     let binaryFileUrl = ''https://github.com/docker/compose/releases/download/v''
           @ VersionString env nextVersion @ ''/docker-compose-'' @ assetSuffix in
     seq (attempt [] (TempFile env currentBinaryPath ''docker-compose-'')) (\<lambda>binaryFilePath.
     seq (attempt [] (downloadFile env binaryFileUrl binaryFilePath)) (\<lambda>_.
     seq (attempt [] (TempFile env (TempDir env) ''docker-compose-*.sha256'')) (\<lambda>binarySHAFile.
     seq (attempt [] (downloadFile env (binaryFileUrl @ ''.sha256'') binarySHAFile)) (\<lambda>_.
     seq (attempt [] (ReadFile binaryFilePath)) (\<lambda>binaryFileContent.
     let computedSum = Sum256 env binaryFileContent in
     seq (attempt [] (ReadFile binarySHAFile)) (\<lambda>downloadedSum.
     seq (if sumsDiffer computedSum downloadedSum
          then Println ''Sha256 hashes are not identically'' else ret ()) (\<lambda>_.
     seq (Println ''Sha256 hashes identically. Replace current binary with new update'') (\<lambda>_.
     replaceBinary env currentBinaryPath binaryFilePath))))))))))"

text \<open>
  \<^verbatim>\<open>runSelfUpdate\<close>: lines 78 to 107, then \<open>downloadUpdate\<close>. The error of
  \<^verbatim>\<open>requestJson\<close> is not looked at: the body is then \<^verbatim>\<open>nil\<close>, the empty string.
  \<^verbatim>\<open>versions[0]\<close> is read twice, for the name and for the tag. \<^verbatim>\<open>Println\<close> puts
  a space between its operands. The options are not read.
\<close>

definition runSelfUpdate :: "'v env \<Rightarrow> selfUpdateOptions \<Rightarrow> unit prog" where
  "runSelfUpdate env opts =
     seq (Println ''Checking for new docker-compose version ...'') (\<lambda>_.
     seq (\<lambda>s. case requestJson env releasesUrl s of (r, s') \<Rightarrow> (Inr r, s')) (\<lambda>r.
     seq (check [] (Unmarshal env (case r of Inl err \<Rightarrow> [] | Inr body \<Rightarrow> body))) (\<lambda>versions.
     seq (check ''Failed to parse current Version'' (NewVersion env version)) (\<lambda>currentVersion.
     seq (index versions 0) (\<lambda>latest.
     seq (Println (''Latest tag is  '' @ VersionResponse.Name latest)) (\<lambda>_.
     seq (index versions 0) (\<lambda>latest.
     seq (check ''Failed to parse version from github releases''
            (NewVersion env (TagName latest))) (\<lambda>nextVersion.
     if LessThan env nextVersion currentVersion
     then Println ''Latest version is already installed''
     else downloadUpdate env nextVersion))))))))"

subsection \<open>What a run shows\<close>

text \<open>The URLs of the GET requests among the events, in their order.\<close>

fun requests :: "event list \<Rightarrow> string list" where
  "requests [] = []"
| "requests (Requested url # es) = url # requests es"
| "requests (e # es) = requests es"

text \<open>
  The bytes \<^verbatim>\<open>runSelfUpdate\<close> hands to \<^verbatim>\<open>json.Unmarshal\<close>: the body of the releases
  request, nothing when \<^verbatim>\<open>requestJson\<close> failed.
\<close>

definition feed :: "'v env \<Rightarrow> string" where
  "feed env = (case httpGet env releasesUrl of
                 Body b \<Rightarrow> b | Unreachable err \<Rightarrow> [] | Broken b err \<Rightarrow> [])"

text \<open>Whether a run ended in the panic of an index out of range.\<close>

definition panics :: "(abort + 'a) \<Rightarrow> bool" where
  "panics r = (case r of Inl (IndexOutOfRange i n) \<Rightarrow> True
               | Inl (LogFatal msg err) \<Rightarrow> False | Inr x \<Rightarrow> False)"

subsection \<open>A host to run the program on\<close>

text \<open>
  An environment for the examples: a linux/amd64 host; a releases feed with the one
  release \<open>v\<close>rel, whose binary and checksum file are served; a table in the place of the
  semver library, with versions as triples in their lexicographic order; any function
  \<open>h\<close> in the place of SHA-256. \<open>toySum256\<close> is such a function, for the examples that
  have to name one.
\<close>

type_synonym semver = "nat \<times> nat \<times> nat"

definition semverTable :: "(string \<times> semver) list" where
  "semverTable = [(''2.0.0'', (2, 0, 0)), (''2.2.2'', (2, 2, 2)), (''2.3.0'', (2, 3, 0))]"

definition release :: "string \<Rightarrow> VersionResponse" where
  "release tag = \<lparr>VersionResponse.Id = 1,
     Url = ''https://api.github.com/repos/docker/compose/releases/1'', Name = tag, TagName = tag\<rparr>"

definition feedBody :: "string \<Rightarrow> string" where
  "feedBody rel = ''[{tag_name: v'' @ rel @ ''}]''"

definition assetUrl :: "string \<Rightarrow> string" where
  "assetUrl rel = ''https://github.com/docker/compose/releases/download/v'' @ rel
     @ ''/docker-compose-linux-x86_64''"

definition toySum256 :: "string \<Rightarrow> sum256" where
  "toySum256 b = Abs_sum256 (take 32 (b @ replicate 32 (CHR 0x00)))"

definition checksumFile :: "(string \<Rightarrow> sum256) \<Rightarrow> string \<Rightarrow> string" where
  "checksumFile h b = EncodeToString (Rep_sum256 (h b)) @ ''  docker-compose-linux-x86_64''"

definition errorPage :: string where
  "errorPage = ''<html><head><title>502 Bad Gateway</title></head><body></body></html>''"

definition hostFiles :: filesystem where
  "hostFiles = [(''/usr/local/bin'', Dir), (''/usr/local/bin/docker-compose'', File ''compose 2.2.2''),
                (''/home/user/project'', Dir), (''/tmp'', Dir)]"

definition hostWorld :: world where
  "hostWorld = \<lparr>files = hostFiles, events = []\<rparr>"

text \<open>Neither flag of the command given.\<close>

definition noOptions :: selfUpdateOptions where
  "noOptions = \<lparr>unstable = False, quiet = False\<rparr>"

definition host :: "string \<Rightarrow> string \<Rightarrow> (string \<Rightarrow> sum256) \<Rightarrow> semver env" where
  "host rel checksum h = \<lparr>
     GOOS = ''linux'', GOARCH = ''amd64'',
     Getwd = Inr ''/home/user/project'', TempDir = ''/tmp'',
     nextRandom = (\<lambda>dir pattern. ''3141592653''),
     renameRefused = (\<lambda>old new. None),
     httpGet = (\<lambda>url.
        if url = releasesUrl then Body (feedBody rel)
        else if url = assetUrl rel then Body (''compose '' @ rel)
        else if url = assetUrl rel @ ''.sha256'' then Body checksum
        else Body ''Not Found''),
     Unmarshal = (\<lambda>b. if b = ''[]'' then Inr []
                      else if b = feedBody rel then Inr [release (''v'' @ rel)]
                      else Inl (External ''invalid character'')),
     NewVersion = (\<lambda>t. case map_of semverTable (if t \<noteq> [] \<and> hd t = CHR ''v'' then tl t else t) of
                          Some v \<Rightarrow> Inr v
                        | None \<Rightarrow> Inl (External ''Invalid Semantic Version'')),
     LessThan = (\<lambda>(a, b, c) (x, y, z). a < x \<or> a = x \<and> (b < y \<or> b = y \<and> c < z)),
     VersionString = (\<lambda>v. case find (\<lambda>(t, w). w = v) semverTable of
                             Some (t, w) \<Rightarrow> t | None \<Rightarrow> []),
     Sum256 = h\<rparr>"

section \<open>Properties\<close>

subsection \<open>Hexadecimal digits and sums\<close>

lemma length_EncodeToString: "length (EncodeToString src) = 2 * length src"
  by (induction src) (simp_all add: EncodeToString_def)

lemma EncodeToString_Cons:
  "EncodeToString (c # cs) = hextable ! (of_char c div 16) # hextable ! (of_char c mod 16) # EncodeToString cs"
  by (simp add: EncodeToString_def)

lemma EncodeToString_Nil: "EncodeToString [] = []"
  by (simp add: EncodeToString_def)

lemma distinct_hextable: "distinct hextable" and length_hextable: "length hextable = 16"
  by (simp_all add: hextable_def)

lemma of_char_nat_less: "(of_char c :: nat) < 256"
proof -
  have "(of_char c :: nat) mod 256 < 256" by (rule mod_less_divisor) simp
  then show ?thesis by simp
qed

lemma hex_digits_inject:
  assumes "hextable ! (of_char c div 16) = hextable ! (of_char d div 16)"
    and "hextable ! (of_char c mod 16) = hextable ! (of_char d mod 16)"
  shows "c = d"
proof -
  have c: "(of_char c :: nat) < 256" and d: "(of_char d :: nat) < 256"
    by (rule of_char_nat_less)+
  from c d have "(of_char c :: nat) div 16 < 16" "(of_char d :: nat) div 16 < 16"
    by (simp_all add: less_mult_imp_div_less)
  with assms(1) have hi: "(of_char c :: nat) div 16 = of_char d div 16"
    by (simp add: nth_eq_iff_index_eq distinct_hextable length_hextable)
  from assms(2) have lo: "(of_char c :: nat) mod 16 = of_char d mod 16"
    by (simp add: nth_eq_iff_index_eq distinct_hextable length_hextable)
  have "(of_char c :: nat) = of_char d"
    using hi lo by (metis div_mult_mod_eq)
  then show ?thesis by simp
qed

lemma EncodeToString_inject: "EncodeToString xs = EncodeToString ys \<Longrightarrow> xs = ys"
proof (induction xs arbitrary: ys)
  case Nil
  then have "length (EncodeToString ys) = 0" by (simp add: EncodeToString_Nil)
  then show ?case by (simp add: length_EncodeToString)
next
  case (Cons c cs)
  from Cons.prems have "length (EncodeToString ys) = 2 * Suc (length cs)"
    by (metis length_EncodeToString length_Cons)
  then obtain d ds where ys: "ys = d # ds"
    by (cases ys) (simp_all add: length_EncodeToString)
  with Cons.prems have "c = d" and "EncodeToString cs = EncodeToString ds"
    by (auto simp: EncodeToString_Cons intro: hex_digits_inject)
  with Cons.IH ys show ?case by simp
qed

lemma length_Rep_sum256: "length (Rep_sum256 d) = 32"
  using Rep_sum256 [of d] by simp

lemma sliceTo64_sum: "sliceTo64 (EncodeToString (Rep_sum256 d) @ rest) = EncodeToString (Rep_sum256 d)"
  by (simp add: sliceTo64_def length_EncodeToString length_Rep_sum256)

lemma set_EncodeToString: "set (EncodeToString src) \<subseteq> set hextable"
proof (induction src)
  case Nil
  show ?case by (simp add: EncodeToString_Nil)
next
  case (Cons c cs)
  have "(of_char c :: nat) < 256" by (rule of_char_nat_less)
  then have "(of_char c :: nat) div 16 < length hextable" and "(of_char c :: nat) mod 16 < length hextable"
    by (simp_all add: less_mult_imp_div_less length_hextable)
  then have "hextable ! (of_char c div 16) \<in> set hextable" and "hextable ! (of_char c mod 16) \<in> set hextable"
    by (simp_all only: nth_mem)
  with Cons show ?case by (simp add: EncodeToString_Cons)
qed

lemma sliceTo64_eq_sum:
  "sliceTo64 file = EncodeToString (Rep_sum256 d) \<longleftrightarrow> take 64 file = EncodeToString (Rep_sum256 d)"
proof (cases "64 \<le> length file")
  case True
  then show ?thesis by (simp add: sliceTo64_def)
next
  case False
  have len: "length (EncodeToString (Rep_sum256 d)) = 64"
    by (simp add: length_EncodeToString length_Rep_sum256)
  from False have "length (take 64 file) \<noteq> 64" by simp
  with len have a: "take 64 file \<noteq> EncodeToString (Rep_sum256 d)" by metis
  from False have "CHR 0x00 \<in> set (sliceTo64 file)"
    by (simp add: sliceTo64_def)
  moreover have "CHR 0x00 \<notin> set hextable" by (simp add: hextable_def)
  ultimately have "sliceTo64 file \<noteq> EncodeToString (Rep_sum256 d)"
    using set_EncodeToString [of "Rep_sum256 d"] by auto
  with a show ?thesis by simp
qed

lemma finite_sum256: "finite (UNIV :: sum256 set)" and card_sum256: "card (UNIV :: sum256 set) = 256 ^ 32"
proof -
  have eq: "Rep_sum256 ` UNIV = {xs. set xs \<subseteq> UNIV \<and> length xs = 32}"
    using type_definition.Rep_range [OF type_definition_sum256] by auto
  have fin: "finite {xs :: string. set xs \<subseteq> UNIV \<and> length xs = 32}"
    by (rule finite_lists_length_eq) simp
  have inj: "inj Rep_sum256" by (simp add: inj_on_def Rep_sum256_inject)
  from fin eq inj show "finite (UNIV :: sum256 set)"
    by (metis finite_imageD)
  have "card (UNIV :: sum256 set) = card (Rep_sum256 ` UNIV)"
    using inj by (simp add: card_image)
  also have "\<dots> = 256 ^ 32"
    unfolding eq using card_lists_length_eq [of "UNIV :: char set" 32] by (simp add: card_UNIV_char)
  finally show "card (UNIV :: sum256 set) = 256 ^ 32" .
qed

lemma sum256_collision:
  fixes h :: "string \<Rightarrow> sum256"
  shows "\<exists>b b'. length b = 33 \<and> length b' = 33 \<and> b \<noteq> b' \<and> h b = h b'"
proof -
  let ?A = "{xs :: string. set xs \<subseteq> UNIV \<and> length xs = 33}"
  have "card ?A = 256 ^ 33"
    using card_lists_length_eq [of "UNIV :: char set" 33] by (simp add: card_UNIV_char)
  moreover have "card (h ` ?A) \<le> card (UNIV :: sum256 set)"
    by (rule card_mono) (simp_all add: finite_sum256)
  ultimately have "card (h ` ?A) < card ?A" by (simp add: card_sum256)
  then have "\<not> inj_on h ?A" by (rule pigeonhole)
  then show ?thesis by (auto simp: inj_on_def)
qed

subsection \<open>The parts of a run\<close>

lemmas prog_defs = seq_def ret_def Println_def check_def attempt_def index_def

lemma requests_append: "requests (es @ fs) = requests es @ requests fs"
  by (induction es rule: requests.induct) simp_all

lemma requestJson_feed:
  "requestJson env releasesUrl s =
     (case httpGet env releasesUrl of Body b \<Rightarrow> Inr b | Unreachable err \<Rightarrow> Inl err | Broken b err \<Rightarrow> Inl err,
      s\<lparr>events := events s @ [Requested releasesUrl]\<rparr>)"
  by (simp add: requestJson_def Let_def split: response.splits)

lemma feed_requestJson:
  "(case fst (requestJson env releasesUrl s) of Inl err \<Rightarrow> [] | Inr body \<Rightarrow> body) = feed env"
  by (simp add: requestJson_feed feed_def split: response.splits)

text \<open>The first part of a run, up to the decision on the versions.\<close>

lemma runSelfUpdate_unfold:
  "runSelfUpdate env opts s =
     (let s1 = s\<lparr>events := events s @ [Printed ''Checking for new docker-compose version ...'',
                                        Requested releasesUrl]\<rparr> in
      case Unmarshal env (feed env) of
        Inl err \<Rightarrow> (Inl (LogFatal [] err), s1)
      | Inr versions \<Rightarrow>
         (case NewVersion env version of
            Inl err \<Rightarrow> (Inl (LogFatal ''Failed to parse current Version'' err), s1)
          | Inr currentVersion \<Rightarrow>
             (case versions of
                [] \<Rightarrow> (Inl (IndexOutOfRange 0 0), s1)
              | latest # rest \<Rightarrow>
                 (let s2 = s1\<lparr>events := events s1 @ [Printed (''Latest tag is  '' @ VersionResponse.Name latest)]\<rparr> in
                  case NewVersion env (TagName latest) of
                    Inl err \<Rightarrow> (Inl (LogFatal ''Failed to parse version from github releases'' err), s2)
                  | Inr nextVersion \<Rightarrow>
                      if LessThan env nextVersion currentVersion
                      then (Inr (), s2\<lparr>events := events s2 @ [Printed ''Latest version is already installed'']\<rparr>)
                      else downloadUpdate env nextVersion s2))))"
proof -
  have "(case fst (requestJson env releasesUrl (snd (Println ''Checking for new docker-compose version ...'' s))) of Inl err \<Rightarrow> [] | Inr body \<Rightarrow> body) = feed env"
    by (rule feed_requestJson)
  then show ?thesis
    by (simp add: runSelfUpdate_def prog_defs requestJson_feed Let_def split: sum.splits list.splits)
qed

lemma downloadUpdate_unsupported:
  "matchArchitecture (GOOS env) (GOARCH env) = Inl err \<Longrightarrow>
   downloadUpdate env nextVersion s = (Inl (LogFatal [] err), s)"
  by (simp add: downloadUpdate_def seq_def check_def)

lemma panics_simps [simp]:
  "panics (Inl (IndexOutOfRange i n))" "\<not> panics (Inl (LogFatal msg err))" "\<not> panics (Inr x)"
  by (simp_all add: panics_def)

lemma no_panic_seq:
  "(\<And>s. \<not> panics (fst (m s))) \<Longrightarrow> (\<And>x s. \<not> panics (fst (f x s))) \<Longrightarrow> \<not> panics (fst (seq m f s))"
proof -
  assume m: "\<And>s. \<not> panics (fst (m s))" and f: "\<And>x s. \<not> panics (fst (f x s))"
  obtain r s' where ms: "m s = (r, s')" by (cases "m s")
  show ?thesis
  proof (cases r)
    case (Inl a)
    from m [of s] ms Inl have "\<not> panics (Inl a :: abort + 'a)" by simp
    then have "\<not> panics (Inl a :: abort + 'b)" by (simp add: panics_def split: abort.splits)
    with ms Inl show ?thesis by (simp add: seq_def)
  next
    case (Inr x)
    with ms f [of x s'] show ?thesis by (simp add: seq_def)
  qed
qed

lemma no_panic_check: "\<not> panics (fst (check msg r s))"
  by (simp add: check_def split: sum.splits)

lemma no_panic_attempt: "\<not> panics (fst (attempt msg op s))"
  by (simp add: attempt_def no_panic_check split: prod.splits)

lemma no_panic_Println: "\<not> panics (fst (Println line s))"
  by (simp add: Println_def)

lemma no_panic_ret: "\<not> panics (fst (ret x s))"
  by (simp add: ret_def)

lemma no_panic_replaceBinary: "\<not> panics (fst (replaceBinary env cwd tmp s))"
  unfolding replaceBinary_def
  by (intro no_panic_seq no_panic_attempt no_panic_Println)

lemma no_panic_downloadUpdate: "\<not> panics (fst (downloadUpdate env nextVersion s))"
  unfolding downloadUpdate_def Let_def
  by (intro no_panic_seq no_panic_attempt no_panic_Println no_panic_check no_panic_replaceBinary)
     (simp_all add: no_panic_Println no_panic_ret)

subsection \<open>move\<close>

lemma below_self: "below d d" by (simp add: below_def)

lemma below_decomp: "below d p \<Longrightarrow> p = d @ drop (length d) p"
  by (auto simp: below_def prefix_def)

lemma not_below_longer: "length d < length e \<Longrightarrow> \<not> below e d"
  by (auto simp: below_def prefix_def)

lemma rebase_neq_old: "length old < length new \<Longrightarrow> rebase old new p \<noteq> old"
proof
  assume len: "length old < length new" and eq: "rebase old new p = old"
  show False
  proof (cases "below old p")
    case True
    with eq have "length (new @ drop (length old) p) = length old" by (simp add: rebase_def)
    with len show False by simp
  next
    case False
    with eq have "p = old" by (simp add: rebase_def)
    with False show False by (simp add: below_self)
  qed
qed

lemma move_vacates:
  assumes "length old < length new"
  shows "map_of (move old new fs) old = None"
proof (induction fs)
  case Nil
  show ?case by (simp add: move_def)
next
  case (Cons e fs)
  obtain p n where e: "e = (p, n)" by (cases e)
  from rebase_neq_old [OF assms, of p] Cons e show ?case
    by (simp add: move_def)
qed

lemma below_rebase: "below old p \<Longrightarrow> below new (rebase old new p)"
  by (auto simp: rebase_def below_def prefix_def)

lemma rebase_inject:
  assumes "\<not> below new p" "\<not> below new q" "rebase old new p = rebase old new q"
  shows "p = q"
proof (cases "below old p")
  case p: True
  show ?thesis
  proof (cases "below old q")
    case True
    with p assms(3) have "drop (length old) p = drop (length old) q" by (simp add: rebase_def)
    with below_decomp [OF p] below_decomp [OF True] show ?thesis by metis
  next
    case False
    with assms(3) have "q = rebase old new p" by (simp add: rebase_def)
    with below_rebase [OF p] assms(2) show ?thesis by simp
  qed
next
  case p: False
  show ?thesis
  proof (cases "below old q")
    case True
    with p assms(3) have "p = rebase old new q" by (simp add: rebase_def)
    with below_rebase [OF True] assms(1) show ?thesis by simp
  next
    case False
    with p assms(3) show ?thesis by (simp add: rebase_def)
  qed
qed

lemma map_of_move:
  assumes "\<not> below new k"
  shows "map_of (move old new fs) (rebase old new k) = map_of fs k"
proof (induction fs)
  case Nil
  show ?case by (simp add: move_def)
next
  case (Cons e fs)
  obtain p n where e: "e = (p, n)" by (cases e)
  show ?case
  proof (cases "below new p")
    case True
    with assms have "p \<noteq> k" by auto
    with True Cons e show ?thesis by (simp add: move_def)
  next
    case False
    with assms have "rebase old new p = rebase old new k \<longleftrightarrow> p = k"
      by (auto dest: rebase_inject)
    with False Cons e show ?thesis by (auto simp: move_def)
  qed
qed

lemma move_keeps_backup:
  assumes "length old < length new"
  shows "map_of (move old new fs) new = map_of fs old"
proof -
  from assms have "\<not> below new old" by (rule not_below_longer)
  then have "map_of (move old new fs) (rebase old new old) = map_of fs old" by (rule map_of_move)
  then show ?thesis by (simp add: rebase_def below_self)
qed

subsection \<open>searchAssets\<close>

lemma searchAssets_loop_none:
  "\<forall>j. i \<le> j \<and> j < length assets \<longrightarrow> AssetsResponse.Name (assets ! j) \<noteq> needle
   \<Longrightarrow> searchAssets_loop assets needle i = (0, Some NoMatchingAsset)"
proof (induction assets needle i rule: searchAssets_loop.induct)
  case (1 assets needle i)
  show ?case
  proof (cases "i < length assets")
    case True
    with "1.prems" have ne: "AssetsResponse.Name (assets ! i) \<noteq> needle" by simp
    from "1.prems" have "\<forall>j. Suc i \<le> j \<and> j < length assets \<longrightarrow> AssetsResponse.Name (assets ! j) \<noteq> needle"
      by simp
    with "1.IH" [OF True ne] have "searchAssets_loop assets needle (Suc i) = (0, Some NoMatchingAsset)" .
    with True ne show ?thesis by simp
  next
    case False
    then show ?thesis by simp
  qed
qed

lemma searchAssets_loop_found:
  "i \<le> k \<Longrightarrow> k < length assets \<Longrightarrow> AssetsResponse.Name (assets ! k) = needle
   \<Longrightarrow> \<forall>j. i \<le> j \<and> j < k \<longrightarrow> AssetsResponse.Name (assets ! j) \<noteq> needle
   \<Longrightarrow> searchAssets_loop assets needle i = (k, None)"
proof (induction assets needle i rule: searchAssets_loop.induct)
  case (1 assets needle i)
  from "1.prems" have lt: "i < length assets" by simp
  show ?case
  proof (cases "i = k")
    case True
    with "1.prems" lt show ?thesis by simp
  next
    case False
    with "1.prems" have ne: "AssetsResponse.Name (assets ! i) \<noteq> needle" and le: "Suc i \<le> k"
      by simp_all
    from "1.prems" have "\<forall>j. Suc i \<le> j \<and> j < k \<longrightarrow> AssetsResponse.Name (assets ! j) \<noteq> needle"
      by simp
    with "1.IH" [OF lt ne le] "1.prems" have "searchAssets_loop assets needle (Suc i) = (k, None)"
      by simp
    with lt ne show ?thesis by simp
  qed
qed

text \<open>
  C9. When some asset's name equals the needle, searchAssets returns the least such index
  and no error; it returns index 0 together with an error exactly when no asset's name
  equals the needle.
\<close>

theorem searchAssets_least_index:
  "((\<exists>i < length assets. AssetsResponse.Name (assets ! i) = needle) \<longrightarrow>
      searchAssets assets needle =
        ((LEAST i. i < length assets \<and> AssetsResponse.Name (assets ! i) = needle), None))
   \<and> ((\<exists>e. searchAssets assets needle = (0, Some e)) \<longleftrightarrow>
      (\<forall>i < length assets. AssetsResponse.Name (assets ! i) \<noteq> needle))"
proof (cases "\<exists>i < length assets. AssetsResponse.Name (assets ! i) = needle")
  case True
  define k where "k = (LEAST i. i < length assets \<and> AssetsResponse.Name (assets ! i) = needle)"
  from True have "\<exists>i. i < length assets \<and> AssetsResponse.Name (assets ! i) = needle"
    by blast
  then have "k < length assets \<and> AssetsResponse.Name (assets ! k) = needle"
    unfolding k_def by (rule LeastI_ex)
  moreover have "\<forall>j. 0 \<le> j \<and> j < k \<longrightarrow> AssetsResponse.Name (assets ! j) \<noteq> needle"
  proof (intro allI impI)
    fix j assume j: "0 \<le> j \<and> j < k"
    show "AssetsResponse.Name (assets ! j) \<noteq> needle"
    proof
      assume "AssetsResponse.Name (assets ! j) = needle"
      with j \<open>k < length assets \<and> _\<close> have "j < length assets \<and> AssetsResponse.Name (assets ! j) = needle"
        by simp
      then have "k \<le> j" unfolding k_def by (rule Least_le)
      with j show False by simp
    qed
  qed
  ultimately have "searchAssets assets needle = (k, None)"
    unfolding searchAssets_def by (intro searchAssets_loop_found) simp_all
  with True show ?thesis unfolding k_def by auto
next
  case False
  then have "searchAssets assets needle = (0, Some NoMatchingAsset)"
    unfolding searchAssets_def by (intro searchAssets_loop_none) auto
  with False show ?thesis by auto
qed

theorem searchAssets_least_index_witness:
  "searchAssets [\<lparr>AssetsResponse.Id = 1, Url = ''u1'', Name = ''a''\<rparr>,
                 \<lparr>AssetsResponse.Id = 2, Url = ''u2'', Name = ''b''\<rparr>,
                 \<lparr>AssetsResponse.Id = 3, Url = ''u3'', Name = ''b''\<rparr>] ''b'' = (1, None)
   \<and> searchAssets [\<lparr>AssetsResponse.Id = 1, Url = ''u1'', Name = ''a''\<rparr>] ''b''
       = (0, Some NoMatchingAsset)"
proof -
  let ?xs = "[\<lparr>AssetsResponse.Id = 1, Url = ''u1'', Name = ''a''\<rparr>,
              \<lparr>AssetsResponse.Id = 2, Url = ''u2'', Name = ''b''\<rparr>,
              \<lparr>AssetsResponse.Id = 3, Url = ''u3'', Name = ''b''\<rparr>]"
  have ex: "\<exists>i < length ?xs. AssetsResponse.Name (?xs ! i) = ''b''"
    by (rule exI [of _ 1]) simp
  have least: "(LEAST i. i < length ?xs \<and> AssetsResponse.Name (?xs ! i) = ''b'') = 1"
    by (rule Least_equality) (auto simp: nth_Cons' split: if_splits)
  from searchAssets_least_index [of ?xs "''b''"] ex least
  have a: "searchAssets ?xs ''b'' = (1, None)" by simp
  let ?ys = "[\<lparr>AssetsResponse.Id = 1, Url = ''u1'', Name = ''a''\<rparr>]"
  have "\<forall>i < length ?ys. AssetsResponse.Name (?ys ! i) \<noteq> ''b''" by simp
  with searchAssets_least_index [of ?ys "''b''"]
  obtain e where "searchAssets ?ys ''b'' = (0, Some e)" by blast
  moreover have "searchAssets ?ys ''b'' = (0, Some NoMatchingAsset)"
    by (simp add: searchAssets_def)
  ultimately show ?thesis using a by simp
qed

subsection \<open>matchArchitecture\<close>

text \<open>
  C10. Whatever GOOS and GOARCH are, matchArchitecture never returns the suffix
  "linux-armv7": its branch repeats the test of the "linux-armv6" branch before it.
\<close>

theorem matchArchitecture_never_armv7:
  "matchArchitecture goos goarch \<noteq> Inr ''linux-armv7''"
  by (simp add: matchArchitecture_def)

text \<open>
  C3. The code at rows of the documented table: darwin/amd64, linux/arm/v6, linux/arm/v7
  and windows/amd64 have no suffix, while darwin/x86_64, windows/x86_64 and linux with an
  empty architecture, which are not rows of the table, have one.
\<close>

theorem matchArchitecture_table_rows:
  "matchArchitecture ''darwin'' ''amd64'' = Inl (NoMatchingArchitecture ''darwin'' ''amd64'')
   \<and> matchArchitecture ''windows'' ''amd64'' = Inl (NoMatchingArchitecture ''windows'' ''amd64'')
   \<and> matchArchitecture ''linux'' ''arm/v6'' = Inl (NoMatchingArchitecture ''linux'' ''arm/v6'')
   \<and> matchArchitecture ''linux'' ''arm/v7'' = Inl (NoMatchingArchitecture ''linux'' ''arm/v7'')
   \<and> matchArchitecture ''darwin'' ''x86_64'' = Inr ''darwin-x86_64''
   \<and> matchArchitecture ''windows'' ''x86_64'' = Inr ''windows-x86_64''
   \<and> matchArchitecture ''linux'' '''' = Inr ''linux-armv6''
   \<and> matchArchitecture ''darwin'' ''arm64'' = Inr ''darwin-aarch64''
   \<and> matchArchitecture ''linux'' ''amd64'' = Inr ''linux-x86_64''
   \<and> matchArchitecture ''linux'' ''arm64'' = Inr ''linux-aarch64''
   \<and> matchArchitecture ''linux'' ''s390x'' = Inr ''linux-s390x''"
  by (simp add: matchArchitecture_def)

subsection \<open>Runs on the example host\<close>

lemmas os_defs = os_Rename_def TempFile_def ReadFile_def writeFile_def requestJson_def downloadFile_def
  move_def rebase_def below_def prefixAndSuffix_def joinPath_def trimSeparators_def

lemma host_simps:
  "GOOS (host rel checksum h) = ''linux''"
  "GOARCH (host rel checksum h) = ''amd64''"
  "Getwd (host rel checksum h) = Inr ''/home/user/project''"
  "TempDir (host rel checksum h) = ''/tmp''"
  "nextRandom (host rel checksum h) dir pattern = ''3141592653''"
  "renameRefused (host rel checksum h) old new = None"
  "httpGet (host rel checksum h) url =
     (if url = releasesUrl then Body (feedBody rel)
      else if url = assetUrl rel then Body (''compose '' @ rel)
      else if url = assetUrl rel @ ''.sha256'' then Body checksum
      else Body ''Not Found'')"
  "Unmarshal (host rel checksum h) b =
     (if b = ''[]'' then Inr [] else if b = feedBody rel then Inr [release (''v'' @ rel)]
      else Inl (External ''invalid character''))"
  "NewVersion (host rel checksum h) t =
     (case map_of semverTable (if t \<noteq> [] \<and> hd t = CHR ''v'' then tl t else t) of
        Some v \<Rightarrow> Inr v | None \<Rightarrow> Inl (External ''Invalid Semantic Version''))"
  "LessThan (host rel checksum h) =
     (\<lambda>(a, b, c) (x, y, z). a < x \<or> a = x \<and> (b < y \<or> b = y \<and> c < z))"
  "VersionString (host rel checksum h) v =
     (case find (\<lambda>(t, w). w = v) semverTable of Some (t, w) \<Rightarrow> t | None \<Rightarrow> [])"
  "Sum256 (host rel checksum h) = h"
  by (simp_all add: host_def)

lemma sumsDiffer_errorPage: "sumsDiffer d errorPage"
proof -
  have "CHR ''<'' \<in> set (sliceTo64 errorPage)" by (simp add: sliceTo64_def errorPage_def)
  moreover have "CHR ''<'' \<notin> set hextable" by (simp add: hextable_def)
  ultimately show ?thesis
    using set_EncodeToString [of "Rep_sum256 d"] by (auto simp: sumsDiffer_def)
qed

lemma sumsDiffer_checksumFile: "\<not> sumsDiffer (h b) (checksumFile h b)"
  by (simp add: sumsDiffer_def checksumFile_def sliceTo64_sum)

lemmas run_simps = runSelfUpdate_def downloadUpdate_def replaceBinary_def prog_defs os_defs host_simps
  hostFiles_def releasesUrl_def version_def feedBody_def release_def assetUrl_def semverTable_def
  matchArchitecture_def Let_def sumsDiffer_errorPage sumsDiffer_checksumFile

lemmas run_defs = hostWorld_def noOptions_def

text \<open>
  C1. A checksum that does not match does not stop the installation. On the example host,
  started in /usr/local/bin where the executable is, with an error page of 69 bytes served
  for the checksum file: whatever function computes the sum, the sums differ, both
  messages are printed, and the renames follow; the path of the executable is gone.
\<close>

theorem checksum_mismatch_is_installed:
  "sumsDiffer (h ''compose 2.3.0'') errorPage
   \<and> runSelfUpdate ((host ''2.3.0'' errorPage h)\<lparr>Getwd := Inr ''/usr/local/bin''\<rparr>) noOptions hostWorld =
      (Inl (LogFatal [] (NotExist ''/usr/local/bin/docker-compose-3141592653'')),
       \<lparr>files =
          [(''/usr/local/bin_old'', Dir),
           (''/usr/local/bin_old/docker-compose'', File ''compose 2.2.2''),
           (''/home/user/project'', Dir), (''/tmp'', Dir),
           (''/usr/local/bin_old/docker-compose-3141592653'', File ''compose 2.3.0''),
           (''/tmp/docker-compose-3141592653.sha256'', File errorPage)],
        events =
          [Printed ''Checking for new docker-compose version ...'',
           Requested ''https://api.github.com/repos/docker/compose/releases'',
           Printed ''Latest tag is  v2.3.0'',
           Requested ''https://github.com/docker/compose/releases/download/v2.3.0/docker-compose-linux-x86_64'',
           Requested ''https://github.com/docker/compose/releases/download/v2.3.0/docker-compose-linux-x86_64.sha256'',
           Printed ''Sha256 hashes are not identically'',
           Printed ''Sha256 hashes identically. Replace current binary with new update'',
           Renamed ''/usr/local/bin'' ''/usr/local/bin_old'',
           Printed ''Move downdloaded file from /usr/local/bin/docker-compose-3141592653 to /usr/local/bin_tmp'',
           Renamed ''/usr/local/bin/docker-compose-3141592653'' ''/usr/local/bin_tmp'']\<rparr>)"
  by (simp add: run_simps run_defs)

text \<open>
  C2. A candidate equal to the current version is downloaded and installed. On the example
  host, with the release v2.2.2 in the feed and the current version 2.2.2: the line
  "Latest version is already installed" is not printed, both files are requested and the
  renames follow.
\<close>

theorem equal_version_is_installed_again:
  "NewVersion (host ''2.2.2'' (checksumFile h ''compose 2.2.2'') h) (TagName (release ''v2.2.2''))
     = NewVersion (host ''2.2.2'' (checksumFile h ''compose 2.2.2'') h) version
   \<and> runSelfUpdate (host ''2.2.2'' (checksumFile h ''compose 2.2.2'') h) noOptions hostWorld =
      (Inl (LogFatal [] (NotExist ''/home/user/project/docker-compose-3141592653'')),
       \<lparr>files =
          [(''/usr/local/bin'', Dir),
           (''/usr/local/bin/docker-compose'', File ''compose 2.2.2''),
           (''/home/user/project_old'', Dir), (''/tmp'', Dir),
           (''/home/user/project_old/docker-compose-3141592653'', File ''compose 2.2.2''),
           (''/tmp/docker-compose-3141592653.sha256'', File (checksumFile h ''compose 2.2.2''))],
        events =
          [Printed ''Checking for new docker-compose version ...'',
           Requested ''https://api.github.com/repos/docker/compose/releases'',
           Printed ''Latest tag is  v2.2.2'',
           Requested ''https://github.com/docker/compose/releases/download/v2.2.2/docker-compose-linux-x86_64'',
           Requested ''https://github.com/docker/compose/releases/download/v2.2.2/docker-compose-linux-x86_64.sha256'',
           Printed ''Sha256 hashes identically. Replace current binary with new update'',
           Renamed ''/home/user/project'' ''/home/user/project_old'',
           Printed ''Move downdloaded file from /home/user/project/docker-compose-3141592653 to /home/user/project_tmp'',
           Renamed ''/home/user/project/docker-compose-3141592653'' ''/home/user/project_tmp'']\<rparr>)"
  by (simp add: run_simps run_defs)

text \<open>
  C4. The first rename is of the working directory, not of the executable. On the example
  host, started in /home/user/project with the executable at /usr/local/bin/docker-compose:
  the directory /home/user/project becomes /home/user/project_old, the executable stays
  where it is and there is no /usr/local/bin/docker-compose_old.
\<close>

theorem backup_renames_working_directory:
  "runSelfUpdate (host ''2.3.0'' (checksumFile h ''compose 2.3.0'') h) noOptions hostWorld =
      (Inl (LogFatal [] (NotExist ''/home/user/project/docker-compose-3141592653'')),
       \<lparr>files =
          [(''/usr/local/bin'', Dir),
           (''/usr/local/bin/docker-compose'', File ''compose 2.2.2''),
           (''/home/user/project_old'', Dir), (''/tmp'', Dir),
           (''/home/user/project_old/docker-compose-3141592653'', File ''compose 2.3.0''),
           (''/tmp/docker-compose-3141592653.sha256'', File (checksumFile h ''compose 2.3.0''))],
        events =
          [Printed ''Checking for new docker-compose version ...'',
           Requested ''https://api.github.com/repos/docker/compose/releases'',
           Printed ''Latest tag is  v2.3.0'',
           Requested ''https://github.com/docker/compose/releases/download/v2.3.0/docker-compose-linux-x86_64'',
           Requested ''https://github.com/docker/compose/releases/download/v2.3.0/docker-compose-linux-x86_64.sha256'',
           Printed ''Sha256 hashes identically. Replace current binary with new update'',
           Renamed ''/home/user/project'' ''/home/user/project_old'',
           Printed ''Move downdloaded file from /home/user/project/docker-compose-3141592653 to /home/user/project_tmp'',
           Renamed ''/home/user/project/docker-compose-3141592653'' ''/home/user/project_tmp'']\<rparr>)"
  by (simp add: run_simps run_defs)

text \<open>
  C5, as stated, fails. On the example host the first rename succeeds and the second
  fails; the run ends there, with nothing at the original path and the directory at the
  backup path: no rename restores it.
\<close>

theorem failed_step2_restores_nothing:
  "fst (runSelfUpdate (host ''2.3.0'' (checksumFile toySum256 ''compose 2.3.0'') toySum256)
          noOptions hostWorld)
     = Inl (LogFatal [] (NotExist ''/home/user/project/docker-compose-3141592653''))
   \<and> events (snd (runSelfUpdate (host ''2.3.0'' (checksumFile toySum256 ''compose 2.3.0'') toySum256)
          noOptions hostWorld))
     = [Printed ''Checking for new docker-compose version ...'',
        Requested ''https://api.github.com/repos/docker/compose/releases'',
        Printed ''Latest tag is  v2.3.0'',
        Requested ''https://github.com/docker/compose/releases/download/v2.3.0/docker-compose-linux-x86_64'',
        Requested ''https://github.com/docker/compose/releases/download/v2.3.0/docker-compose-linux-x86_64.sha256'',
        Printed ''Sha256 hashes identically. Replace current binary with new update'',
        Renamed ''/home/user/project'' ''/home/user/project_old'',
        Printed ''Move downdloaded file from /home/user/project/docker-compose-3141592653 to /home/user/project_tmp'',
        Renamed ''/home/user/project/docker-compose-3141592653'' ''/home/user/project_tmp'']
   \<and> map_of (files (snd (runSelfUpdate (host ''2.3.0'' (checksumFile toySum256 ''compose 2.3.0'') toySum256)
          noOptions hostWorld))) ''/home/user/project'' = None
   \<and> map_of (files (snd (runSelfUpdate (host ''2.3.0'' (checksumFile toySum256 ''compose 2.3.0'') toySum256)
          noOptions hostWorld))) ''/home/user/project_old'' = Some Dir"
  by (simp add: run_simps run_defs)

text \<open>
  C5, amended. When the first rename has succeeded and the second fails, replaceBinary
  ends in log.Fatal with the error of the second rename and does nothing more: the files
  are those the first rename left, with nothing at the original path and, at the backup
  path, what was at the original path.
\<close>

theorem step2_failure_is_not_rolled_back:
  assumes step1: "os_Rename env cwd (cwd @ ''_old'') s = (Inr (), s1)"
    and step2: "fst (os_Rename env tmp (cwd @ ''_tmp'') s1) = Inl err"
  shows "replaceBinary env cwd tmp s =
           (Inl (LogFatal [] err),
            s1\<lparr>events := events s1 @ [Printed (''Move downdloaded file from '' @ tmp @ '' to '' @ cwd @ ''_tmp''),
                                        Renamed tmp (cwd @ ''_tmp'')]\<rparr>)
       \<and> files s1 = move cwd (cwd @ ''_old'') (files s)
       \<and> map_of (files s1) cwd = None
       \<and> map_of (files s1) (cwd @ ''_old'') = map_of (files s) cwd"
proof -
  from step1 have s1: "s1 = s\<lparr>events := events s @ [Renamed cwd (cwd @ ''_old'')], files := move cwd (cwd @ ''_old'') (files s)\<rparr>"
    by (auto simp: os_Rename_def Let_def split: option.splits if_splits)
  have len: "length cwd < length (cwd @ ''_old'')" by simp
  from step2 have "os_Rename env tmp (cwd @ ''_tmp'') (s1\<lparr>events := events s1 @ [Printed (''Move downdloaded file from '' @ tmp @ '' to '' @ cwd @ ''_tmp'')]\<rparr>)
      = (Inl err, s1\<lparr>events := events s1 @ [Printed (''Move downdloaded file from '' @ tmp @ '' to '' @ cwd @ ''_tmp''), Renamed tmp (cwd @ ''_tmp'')]\<rparr>)"
    by (auto simp: os_Rename_def Let_def split: option.splits if_splits)
  with step1 have "replaceBinary env cwd tmp s =
           (Inl (LogFatal [] err),
            s1\<lparr>events := events s1 @ [Printed (''Move downdloaded file from '' @ tmp @ '' to '' @ cwd @ ''_tmp''),
                                        Renamed tmp (cwd @ ''_tmp'')]\<rparr>)"
    by (simp add: replaceBinary_def prog_defs)
  moreover from s1 have "files s1 = move cwd (cwd @ ''_old'') (files s)" by simp
  ultimately show ?thesis
    using move_vacates [OF len] move_keeps_backup [OF len] by simp
qed

theorem step2_failure_is_not_rolled_back_witness:
  "os_Rename (host ''2.3.0'' errorPage toySum256) ''/home/user/project'' (''/home/user/project'' @ ''_old'')
      \<lparr>files = hostFiles @ [(''/home/user/project/docker-compose-3141592653'', File ''compose 2.3.0'')],
         events = []\<rparr>
     = (Inr (),
        \<lparr>files = [(''/usr/local/bin'', Dir), (''/usr/local/bin/docker-compose'', File ''compose 2.2.2''),
                   (''/home/user/project_old'', Dir), (''/tmp'', Dir),
                   (''/home/user/project_old/docker-compose-3141592653'', File ''compose 2.3.0'')],
           events = [Renamed ''/home/user/project'' ''/home/user/project_old'']\<rparr>)
   \<and> replaceBinary (host ''2.3.0'' errorPage toySum256) ''/home/user/project''
        ''/home/user/project/docker-compose-3141592653''
        \<lparr>files = hostFiles @ [(''/home/user/project/docker-compose-3141592653'', File ''compose 2.3.0'')],
           events = []\<rparr>
     = (Inl (LogFatal [] (NotExist ''/home/user/project/docker-compose-3141592653'')),
        \<lparr>files = [(''/usr/local/bin'', Dir), (''/usr/local/bin/docker-compose'', File ''compose 2.2.2''),
                   (''/home/user/project_old'', Dir), (''/tmp'', Dir),
                   (''/home/user/project_old/docker-compose-3141592653'', File ''compose 2.3.0'')],
           events = [Renamed ''/home/user/project'' ''/home/user/project_old'',
                     Printed ''Move downdloaded file from /home/user/project/docker-compose-3141592653 to /home/user/project_tmp'',
                     Renamed ''/home/user/project/docker-compose-3141592653'' ''/home/user/project_tmp'']\<rparr>)"
proof -
  let ?env = "host ''2.3.0'' errorPage toySum256"
  let ?s = "\<lparr>files = hostFiles @ [(''/home/user/project/docker-compose-3141592653'', File ''compose 2.3.0'')],
              events = []\<rparr>"
  let ?s1 = "\<lparr>files = [(''/usr/local/bin'', Dir), (''/usr/local/bin/docker-compose'', File ''compose 2.2.2''),
                   (''/home/user/project_old'', Dir), (''/tmp'', Dir),
                   (''/home/user/project_old/docker-compose-3141592653'', File ''compose 2.3.0'')],
           events = [Renamed ''/home/user/project'' ''/home/user/project_old'']\<rparr>"
  have step1: "os_Rename ?env ''/home/user/project'' (''/home/user/project'' @ ''_old'') ?s = (Inr (), ?s1)"
    by (simp add: os_defs host_simps hostFiles_def Let_def)
  have step2: "fst (os_Rename ?env ''/home/user/project/docker-compose-3141592653''
                  (''/home/user/project'' @ ''_tmp'') ?s1)
               = Inl (NotExist ''/home/user/project/docker-compose-3141592653'')"
    by (simp add: os_defs host_simps Let_def)
  from step2_failure_is_not_rolled_back [OF step1 step2] step1 show ?thesis by simp
qed

text \<open>
  C6, as stated, fails: whatever function computes a sum of 32 bytes, two different
  contents of 33 bytes have the same sum, and the comparison of the one with the checksum
  file of the other succeeds.
\<close>

theorem digest_comparison_not_injective:
  "\<not> (\<exists>h :: string \<Rightarrow> sum256. \<forall>b b' file.
        take 64 file = EncodeToString (Rep_sum256 (h b)) \<longrightarrow> length b' = length b \<longrightarrow> b' \<noteq> b \<longrightarrow>
        sumsDiffer (h b') file)"
proof
  assume "\<exists>h :: string \<Rightarrow> sum256. \<forall>b b' file.
        take 64 file = EncodeToString (Rep_sum256 (h b)) \<longrightarrow> length b' = length b \<longrightarrow> b' \<noteq> b \<longrightarrow>
        sumsDiffer (h b') file"
  then obtain h :: "string \<Rightarrow> sum256" where h: "\<And>b b' file.
        take 64 file = EncodeToString (Rep_sum256 (h b)) \<Longrightarrow> length b' = length b \<Longrightarrow> b' \<noteq> b \<Longrightarrow>
        sumsDiffer (h b') file" by blast
  from sum256_collision [of h] obtain b b' where c: "length b = 33" "length b' = 33" "b \<noteq> b'" "h b = h b'"
    by blast
  have "take 64 (EncodeToString (Rep_sum256 (h b))) = EncodeToString (Rep_sum256 (h b))"
    by (simp add: length_EncodeToString length_Rep_sum256)
  from h [OF this, of b'] c have "sumsDiffer (h b') (EncodeToString (Rep_sum256 (h b)))" by simp
  with c(4) sliceTo64_sum [of "h b" "[]"] show False by (simp add: sumsDiffer_def)
qed

text \<open>
  C6, amended. When the first 64 characters of the checksum file are the hexadecimal
  digits of the sum of b, the comparison succeeds for b, and it fails for every content
  whose sum differs from the sum of b.
\<close>

theorem verification_round_trip:
  assumes "take 64 file = EncodeToString (Rep_sum256 (h b))"
  shows "\<not> sumsDiffer (h b) file \<and> (\<forall>b'. h b' \<noteq> h b \<longrightarrow> sumsDiffer (h b') file)"
proof -
  from assms have "sliceTo64 file = EncodeToString (Rep_sum256 (h b))"
    by (simp add: sliceTo64_eq_sum)
  then show ?thesis
    by (auto simp: sumsDiffer_def Rep_sum256_inject dest: EncodeToString_inject)
qed

theorem verification_round_trip_witness:
  "take 64 (checksumFile toySum256 ''compose 2.3.0'')
     = EncodeToString (Rep_sum256 (toySum256 ''compose 2.3.0''))
   \<and> \<not> sumsDiffer (toySum256 ''compose 2.3.0'') (checksumFile toySum256 ''compose 2.3.0'')
   \<and> toySum256 ''compose 2.3.1'' \<noteq> toySum256 ''compose 2.3.0''
   \<and> sumsDiffer (toySum256 ''compose 2.3.1'') (checksumFile toySum256 ''compose 2.3.0'')"
proof -
  have pre: "take 64 (checksumFile toySum256 ''compose 2.3.0'')
     = EncodeToString (Rep_sum256 (toySum256 ''compose 2.3.0''))"
    by (simp add: checksumFile_def length_EncodeToString length_Rep_sum256)
  have ne: "toySum256 ''compose 2.3.1'' \<noteq> toySum256 ''compose 2.3.0''"
    by (simp add: toySum256_def Abs_sum256_inject)
  from verification_round_trip [of "checksumFile toySum256 ''compose 2.3.0''" toySum256 "''compose 2.3.0''"]
    pre ne show ?thesis by blast
qed

lemma matchArchitecture_unsupported:
  assumes "(goos, goarch) \<notin> set [(''darwin'', ''arm64''), (''darwin'', ''x86_64''), (''linux'', ''s390x''),
             (''linux'', ''arm64''), (''linux'', ''''), (''linux'', ''amd64''), (''windows'', ''x86_64'')]"
  shows "matchArchitecture goos goarch = Inl (NoMatchingArchitecture goos goarch)"
  using assms by (simp add: matchArchitecture_def)

text \<open>
  C7, as stated, fails. plan9/amd64 has no entry in the table. On the example host turned
  into a plan9 host, with the release v2.0.0 in the feed and the current version 2.2.2,
  the run prints "Latest version is already installed" and returns: there is no error
  about the platform. And darwin/x86_64, which has no entry in the table either, has a
  suffix in matchArchitecture.
\<close>

theorem unsupported_platform_returns_normally:
  "(''plan9'', ''amd64'') \<notin> set [(''darwin'', ''arm64''), (''darwin'', ''amd64''), (''linux'', ''amd64''),
        (''linux'', ''arm64''), (''linux'', ''s390x''), (''linux'', ''arm/v6''), (''linux'', ''arm/v7''),
        (''windows'', ''amd64'')]
   \<and> matchArchitecture ''plan9'' ''amd64'' = Inl (NoMatchingArchitecture ''plan9'' ''amd64'')
   \<and> runSelfUpdate ((host ''2.0.0'' errorPage toySum256)\<lparr>GOOS := ''plan9''\<rparr>) noOptions hostWorld =
      (Inr (),
       \<lparr>files = hostFiles,
          events =
            [Printed ''Checking for new docker-compose version ...'',
             Requested ''https://api.github.com/repos/docker/compose/releases'',
             Printed ''Latest tag is  v2.0.0'',
             Printed ''Latest version is already installed'']\<rparr>)
   \<and> (''darwin'', ''x86_64'') \<notin> set [(''darwin'', ''arm64''), (''darwin'', ''amd64''), (''linux'', ''amd64''),
        (''linux'', ''arm64''), (''linux'', ''s390x''), (''linux'', ''arm/v6''), (''linux'', ''arm/v7''),
        (''windows'', ''amd64'')]
   \<and> matchArchitecture ''darwin'' ''x86_64'' = Inr ''darwin-x86_64''"
  by (simp add: run_simps run_defs)

text \<open>
  C7, amended. For every pair of GOOS and GOARCH with no entry in the documented table
  (the first list), other than the three pairs that matchArchitecture has in addition
  (the second list): no file is requested, the only request of the run is the one for the
  releases, and the files are as before; and a run that gets as far as matchArchitecture
  (the releases parse, there is a first one, both versions parse and the candidate is not
  less than the current version) ends there in log.Fatal with the error that no asset
  matches the pair.
\<close>

theorem resolution_fails_closed:
  assumes "(GOOS env, GOARCH env) \<notin> set [(''darwin'', ''arm64''), (''darwin'', ''amd64''),
             (''linux'', ''amd64''), (''linux'', ''arm64''), (''linux'', ''s390x''),
             (''linux'', ''arm/v6''), (''linux'', ''arm/v7''), (''windows'', ''amd64'')]"
    and "(GOOS env, GOARCH env) \<notin> set [(''darwin'', ''x86_64''), (''windows'', ''x86_64''), (''linux'', '''')]"
  shows "requests (events (snd (runSelfUpdate env opts s))) = requests (events s) @ [releasesUrl]
     \<and> files (snd (runSelfUpdate env opts s)) = files s
     \<and> (\<forall>versions cur next.
          Unmarshal env (feed env) = Inr versions \<longrightarrow> versions \<noteq> [] \<longrightarrow>
          NewVersion env version = Inr cur \<longrightarrow> NewVersion env (TagName (versions ! 0)) = Inr next \<longrightarrow>
          \<not> LessThan env next cur \<longrightarrow>
          fst (runSelfUpdate env opts s)
            = Inl (LogFatal [] (NoMatchingArchitecture (GOOS env) (GOARCH env))))"
proof -
  from assms have "(GOOS env, GOARCH env) \<notin> set [(''darwin'', ''arm64''), (''darwin'', ''x86_64''),
      (''linux'', ''s390x''), (''linux'', ''arm64''), (''linux'', ''''), (''linux'', ''amd64''),
      (''windows'', ''x86_64'')]"
    by simp
  then have "matchArchitecture (GOOS env) (GOARCH env)
      = Inl (NoMatchingArchitecture (GOOS env) (GOARCH env))"
    by (rule matchArchitecture_unsupported)
  then show ?thesis
    by (auto simp: runSelfUpdate_unfold downloadUpdate_unsupported requests_append Let_def
             split: sum.splits list.splits)
qed

theorem resolution_fails_closed_witness:
  "(GOOS ((host ''2.3.0'' errorPage toySum256)\<lparr>GOOS := ''plan9''\<rparr>),
    GOARCH ((host ''2.3.0'' errorPage toySum256)\<lparr>GOOS := ''plan9''\<rparr>))
     \<notin> set [(''darwin'', ''arm64''), (''darwin'', ''amd64''),
             (''linux'', ''amd64''), (''linux'', ''arm64''), (''linux'', ''s390x''),
             (''linux'', ''arm/v6''), (''linux'', ''arm/v7''), (''windows'', ''amd64'')]
   \<and> (GOOS ((host ''2.3.0'' errorPage toySum256)\<lparr>GOOS := ''plan9''\<rparr>),
      GOARCH ((host ''2.3.0'' errorPage toySum256)\<lparr>GOOS := ''plan9''\<rparr>))
     \<notin> set [(''darwin'', ''x86_64''), (''windows'', ''x86_64''), (''linux'', '''')]
   \<and> requests (events (snd (runSelfUpdate ((host ''2.3.0'' errorPage toySum256)\<lparr>GOOS := ''plan9''\<rparr>)
        noOptions hostWorld))) = [releasesUrl]
   \<and> files (snd (runSelfUpdate ((host ''2.3.0'' errorPage toySum256)\<lparr>GOOS := ''plan9''\<rparr>)
        noOptions hostWorld)) = hostFiles
   \<and> fst (runSelfUpdate ((host ''2.3.0'' errorPage toySum256)\<lparr>GOOS := ''plan9''\<rparr>) noOptions hostWorld)
     = Inl (LogFatal [] (NoMatchingArchitecture ''plan9'' ''amd64''))"
proof -
  let ?env = "(host ''2.3.0'' errorPage toySum256)\<lparr>GOOS := ''plan9''\<rparr>"
  have documented: "(GOOS ?env, GOARCH ?env) \<notin> set [(''darwin'', ''arm64''), (''darwin'', ''amd64''),
             (''linux'', ''amd64''), (''linux'', ''arm64''), (''linux'', ''s390x''),
             (''linux'', ''arm/v6''), (''linux'', ''arm/v7''), (''windows'', ''amd64'')]"
    by (simp add: host_simps)
  have extra: "(GOOS ?env, GOARCH ?env) \<notin> set [(''darwin'', ''x86_64''), (''windows'', ''x86_64''),
             (''linux'', '''')]"
    by (simp add: host_simps)
  have v: "Unmarshal ?env (feed ?env) = Inr [release ''v2.3.0'']"
    by (simp add: feed_def host_simps feedBody_def)
  have ne: "[release ''v2.3.0''] \<noteq> []" by simp
  have cur: "NewVersion ?env version = Inr (2, 2, 2)"
    by (simp add: host_simps version_def semverTable_def)
  have nxt: "NewVersion ?env (TagName ([release ''v2.3.0''] ! 0)) = Inr (2, 3, 0)"
    by (simp add: host_simps release_def semverTable_def)
  have ge: "\<not> LessThan ?env (2, 3, 0) (2, 2, 2)"
    by (simp add: host_simps)
  note t = resolution_fails_closed [OF documented extra, of noOptions hostWorld]
  from t v ne cur nxt ge
  have "fst (runSelfUpdate ?env noOptions hostWorld)
      = Inl (LogFatal [] (NoMatchingArchitecture (GOOS ?env) (GOARCH ?env)))"
    by blast
  with t documented extra show ?thesis by (simp add: hostWorld_def host_simps)
qed

text \<open>
  C8. runSelfUpdate reads the first release without testing that there is one. When the
  releases parse and the current version parses: on an empty list of releases the run
  ends in the panic of index 0 out of range for length 0, right after the request; on a
  list that is not empty the run does not end in such a panic.
\<close>

theorem release_index_needs_nonempty:
  assumes "Unmarshal env (feed env) = Inr versions" and "NewVersion env version = Inr cur"
  shows "(versions = [] \<longrightarrow>
            runSelfUpdate env opts s =
              (Inl (IndexOutOfRange 0 0),
               s\<lparr>events := events s @ [Printed ''Checking for new docker-compose version ...'',
                                         Requested releasesUrl]\<rparr>))
       \<and> (versions \<noteq> [] \<longrightarrow> \<not> panics (fst (runSelfUpdate env opts s)))"
  using assms
  by (auto simp: runSelfUpdate_unfold Let_def no_panic_downloadUpdate split: list.splits sum.splits)

theorem release_index_needs_nonempty_witness:
  "Unmarshal ((host ''2.3.0'' errorPage toySum256)\<lparr>httpGet := \<lambda>url. Body ''[]''\<rparr>)
       (feed ((host ''2.3.0'' errorPage toySum256)\<lparr>httpGet := \<lambda>url. Body ''[]''\<rparr>)) = Inr []
   \<and> runSelfUpdate ((host ''2.3.0'' errorPage toySum256)\<lparr>httpGet := \<lambda>url. Body ''[]''\<rparr>) noOptions hostWorld
     = (Inl (IndexOutOfRange 0 0),
        \<lparr>files = hostFiles,
           events = [Printed ''Checking for new docker-compose version ...'', Requested releasesUrl]\<rparr>)
   \<and> Unmarshal (host ''2.3.0'' errorPage toySum256) (feed (host ''2.3.0'' errorPage toySum256))
     = Inr [release ''v2.3.0'']
   \<and> \<not> panics (fst (runSelfUpdate (host ''2.3.0'' errorPage toySum256) noOptions hostWorld))"
proof -
  let ?none = "(host ''2.3.0'' errorPage toySum256)\<lparr>httpGet := \<lambda>url. Body ''[]''\<rparr>"
  let ?one = "host ''2.3.0'' errorPage toySum256"
  have v0: "Unmarshal ?none (feed ?none) = Inr []"
    by (simp add: feed_def host_simps)
  have c0: "NewVersion ?none version = Inr (2, 2, 2)"
    by (simp add: host_simps version_def semverTable_def)
  have v1: "Unmarshal ?one (feed ?one) = Inr [release ''v2.3.0'']"
    by (simp add: feed_def host_simps feedBody_def)
  have c1: "NewVersion ?one version = Inr (2, 2, 2)"
    by (simp add: host_simps version_def semverTable_def)
  from release_index_needs_nonempty [OF v0 c0, of noOptions hostWorld]
    release_index_needs_nonempty [OF v1 c1, of noOptions hostWorld] v0 v1
  show ?thesis by (simp add: hostWorld_def)
qed

end
